theory Spec2Isabelle
  imports Main
begin

section \<open>The SAA scan downloader\<close>

text \<open>
  A shallow embedding of \<^verbatim>\<open>saa-downloader.py\<close>: the identifier sequencer
  \<^verbatim>\<open>makeFilenames\<close>, the scan fetcher \<^verbatim>\<open>downloadScan\<close> and the batch
  entry \<^verbatim>\<open>fetchScans\<close> with its \<^verbatim>\<open>asyncio.gather\<close>.

  Python strings are modelled as \<^typ>\<open>string\<close>, one \<^typ>\<open>char\<close> per code point
  (code points below 256), Python integers as \<^typ>\<open>int\<close>. Every exception the
  modelled code can raise is a value of \<open>error\<close>, returned as \<open>Inl\<close>.
\<close>

datatype error =
    ValueError | IndexError | FileNotFoundError | FileExistsError | IsADirectoryError
  | RequestException | ParseError

subsection \<open>Library functions used by the sequencer\<close>

text \<open>\<^verbatim>\<open>os.path.commonprefix([a, b])\<close>: the longest common leading substring,
  compared character by character.\<close>

fun commonprefix :: "string \<Rightarrow> string \<Rightarrow> string" where
  "commonprefix (x # xs) (y # ys) = (if x = y then x # commonprefix xs ys else [])"
| "commonprefix _ _ = []"

text \<open>\<^verbatim>\<open>s.startswith(p)\<close> and \<^verbatim>\<open>sub in s\<close>.\<close>

fun startswith :: "string \<Rightarrow> string \<Rightarrow> bool" where
  "startswith s [] = True"
| "startswith [] (p # ps) = False"
| "startswith (c # cs) (p # ps) = (c = p \<and> startswith cs ps)"

fun contains :: "string \<Rightarrow> string \<Rightarrow> bool" where
  "contains [] sub = (sub = [])"
| "contains (c # cs) sub = (startswith (c # cs) sub \<or> contains cs sub)"

text \<open>\<^verbatim>\<open>s.split(sep)\<close>: the pieces of \<open>s\<close> between the non-overlapping occurrences
  of \<open>sep\<close>, found from the left; an empty separator raises \<^verbatim>\<open>ValueError\<close>.
  \<open>split_from sep cur s\<close> scans \<open>s\<close> with the piece collected so far in \<open>cur\<close>.\<close>

fun split_from :: "string \<Rightarrow> string \<Rightarrow> string \<Rightarrow> string list" where
  "split_from sep cur [] = [cur]"
| "split_from sep cur (c # cs) =
     (if sep \<noteq> [] \<and> startswith (c # cs) sep
      then cur # split_from sep [] (drop (length sep) (c # cs))
      else split_from sep (cur @ [c]) cs)"

definition split :: "string \<Rightarrow> string \<Rightarrow> error + string list" where
  "split s sep = (if sep = [] then Inl ValueError else Inr (split_from sep [] s))"

text \<open>\<^verbatim>\<open>xs[i]\<close> for a non-negative index: out of range raises \<^verbatim>\<open>IndexError\<close>.\<close>

definition item :: "'a list \<Rightarrow> nat \<Rightarrow> error + 'a" where
  "item xs i = (if i < length xs then Inr (xs ! i) else Inl IndexError)"

text \<open>\<^verbatim>\<open>int(s)\<close> in base 10: the whitespace around the numeral is dropped (tab
  to carriage return, space, and the two spaces U+0085 and U+00A0 of the code points
  below 256), one sign is allowed, then decimal digits, where single underscores may
  separate digits; anything else raises \<^verbatim>\<open>ValueError\<close>. Leading zeros are
  accepted. (The limit that recent interpreters put on the number of digits is not
  modelled.)\<close>

definition int_space :: "char \<Rightarrow> bool" where
  "int_space c = (c \<in> set [CHR 0x09, CHR 0x0A, CHR 0x0B, CHR 0x0C, CHR 0x0D,
                           CHR 0x20, CHR 0x85, CHR 0xA0])"

definition int_strip :: "string \<Rightarrow> string" where
  "int_strip s = rev (dropWhile int_space (rev (dropWhile int_space s)))"

definition isdigit :: "char \<Rightarrow> bool" where
  "isdigit c = (c \<in> set ''0123456789'')"

definition digit_value :: "char \<Rightarrow> nat" where
  "digit_value c = length (takeWhile (\<lambda>d. d \<noteq> c) ''0123456789'')"

fun parse_digits :: "nat \<Rightarrow> string \<Rightarrow> nat option" where
  "parse_digits acc [] = Some acc"
| "parse_digits acc [c] = (if isdigit c then Some (10 * acc + digit_value c) else None)"
| "parse_digits acc (c # d # ds) =
     (if isdigit c then parse_digits (10 * acc + digit_value c) (d # ds)
      else if c = CHR ''_'' \<and> isdigit d then parse_digits (10 * acc + digit_value d) ds
      else None)"

definition parse_nat :: "string \<Rightarrow> nat option" where
  "parse_nat s = (case s of [] \<Rightarrow> None
     | c # cs \<Rightarrow> if isdigit c then parse_digits (digit_value c) cs else None)"

definition int_of_str :: "string \<Rightarrow> error + int" where
  "int_of_str s =
     (let t = int_strip s;
          r = (case t of [] \<Rightarrow> None
               | c # cs \<Rightarrow>
                   if c = CHR ''-'' then map_option (\<lambda>n. - int n) (parse_nat cs)
                   else if c = CHR ''+'' then map_option int (parse_nat cs)
                   else map_option int (parse_nat t))
      in case r of None \<Rightarrow> Inl ValueError | Some i \<Rightarrow> Inr i)"

text \<open>\<^verbatim>\<open>str(i)\<close> for an integer, and \<^verbatim>\<open>s.zfill(width)\<close>, which pads with zeros
  on the left, after a leading sign if there is one.\<close>

definition digit_char :: "nat \<Rightarrow> char" where
  "digit_char d = ''0123456789'' ! (d mod 10)"

fun str_nat :: "nat \<Rightarrow> string" where
  "str_nat n = (if n < 10 then [digit_char n] else str_nat (n div 10) @ [digit_char (n mod 10)])"

declare str_nat.simps [simp del]

definition str_int :: "int \<Rightarrow> string" where
  "str_int i = (if i < 0 then CHR ''-'' # str_nat (nat (- i)) else str_nat (nat i))"

definition zfill :: "string \<Rightarrow> nat \<Rightarrow> string" where
  "zfill s width =
     (if width \<le> length s then s
      else (case s of
              c # cs \<Rightarrow>
                if c = CHR ''+'' \<or> c = CHR ''-''
                then c # replicate (width - length s) CHR ''0'' @ cs
                else replicate (width - length s) CHR ''0'' @ s
            | [] \<Rightarrow> replicate (width - length s) CHR ''0'' @ s))"

subsection \<open>The sequencer: \<^verbatim>\<open>makeFilenames\<close>\<close>

text \<open>
  \<^verbatim>\<open>
  prefix = os.path.commonprefix([start, end])
  n_start = int(start.split(prefix)[1])
  n_end = int(end.split(prefix)[1])
  zpadlength = len(str(n_end))
  filenames = []
  for i in range(n_start, n_end + 1):
      filenames.append(prefix + str(i).zfill(zpadlength))
  return filenames
  \<close>
  The loop over \<^verbatim>\<open>range(n_start, n_end + 1)\<close> is the map over the interval
  \<open>[n_start..n_end]\<close>, which is empty when \<open>n_end < n_start\<close>.
\<close>

definition makeFilenames :: "string \<Rightarrow> string \<Rightarrow> error + string list" where
  "makeFilenames start end' =
     (let prefix = commonprefix start end' in
      case split start prefix of Inl e \<Rightarrow> Inl e | Inr ps \<Rightarrow>
      case item ps 1 of Inl e \<Rightarrow> Inl e | Inr rs \<Rightarrow>
      case int_of_str rs of Inl e \<Rightarrow> Inl e | Inr n_start \<Rightarrow>
      case split end' prefix of Inl e \<Rightarrow> Inl e | Inr pe \<Rightarrow>
      case item pe 1 of Inl e \<Rightarrow> Inl e | Inr re \<Rightarrow>
      case int_of_str re of Inl e \<Rightarrow> Inl e | Inr n_end \<Rightarrow>
      let zpadlength = length (str_int n_end) in
      Inr (map (\<lambda>i. prefix @ zfill (str_int i) zpadlength) [n_start..n_end]))"

subsection \<open>The world of the fetcher\<close>

text \<open>
  The fetcher acts on the file system and on the network. Its world is the file system,
  a map from paths to nodes (paths are compared as strings; permissions and parent
  directories are not modelled), and the trace of the effects performed so far, in
  order. The archive is a parameter: \<open>http env h kind url\<close> is the body of the response
  to a \<^verbatim>\<open>requests.get\<close> of \<open>url\<close> issued after the history \<open>h\<close>, or \<open>None\<close> when
  the call raises; the response may depend on everything that happened before.
  \<open>highres env body\<close> is what the \<^verbatim>\<open>lxml\<close> lookup of the \<^verbatim>\<open>url\<close> attribute of
  \<^verbatim>\<open>download[@label='highres']/part\<close> yields on a descriptor body, or \<open>None\<close> when
  parsing or the lookup raises. \<^verbatim>\<open>r.text\<close> and \<^verbatim>\<open>r.content\<close> are the same string.

  Each request is tagged with the place of the source that issues it: the descriptor
  request and the binary fetch send \<^verbatim>\<open>HEADERS\<close>, the preparation request does not.
\<close>

datatype outcome = Downloaded | Skipped | Unresolvable

datatype request = Descriptor | Prepare | Binary

datatype event =
    Print string
  | MakeDirs string
  | Get request string
  | Sleep nat
  | Write string string

datatype node = Dir | File string

record world =
  fs :: "string \<rightharpoonup> node"
  trace :: "event list"

record env =
  http :: "event list \<Rightarrow> request \<Rightarrow> string \<Rightarrow> string option"
  highres :: "string \<Rightarrow> string option"

definition BASEURL :: string where
  "BASEURL = ''https://archief.amsterdam''"

definition DOWNLOADURL :: string where
  "DOWNLOADURL = ''https://archief.amsterdam/api/download_info/0/''"

definition PREPAREURL :: string where
  "PREPAREURL = ''https://archief.amsterdam/api/queue_download/0/''"

text \<open>\<^verbatim>\<open>os.path.join(a, b)\<close> on POSIX, \<^verbatim>\<open>os.path.exists\<close>,
  \<^verbatim>\<open>os.makedirs(path, exist_ok=True)\<close> (which raises on the empty path and on a
  path that is a regular file), and \<^verbatim>\<open>open(path, 'wb')\<close> followed by one write
  (which raises when the path is a directory).\<close>

definition join :: "string \<Rightarrow> string \<Rightarrow> string" where
  "join a b =
     (if startswith b ''/'' then b
      else if a = [] \<or> last a = CHR ''/'' then a @ b
      else a @ ''/'' @ b)"

definition exists :: "world \<Rightarrow> string \<Rightarrow> bool" where
  "exists w path = (fs w path \<noteq> None)"

definition emit :: "event \<Rightarrow> world \<Rightarrow> world" where
  "emit ev w = w\<lparr>trace := trace w @ [ev]\<rparr>"

definition makedirs :: "string \<Rightarrow> world \<Rightarrow> error option \<times> world" where
  "makedirs path w =
     (let w' = emit (MakeDirs path) w in
      if path = [] then (Some FileNotFoundError, w')
      else case fs w path of
             Some (File _) \<Rightarrow> (Some FileExistsError, w')
           | Some Dir \<Rightarrow> (None, w')
           | None \<Rightarrow> (None, w'\<lparr>fs := (fs w')(path \<mapsto> Dir)\<rparr>))"

definition write_file :: "string \<Rightarrow> string \<Rightarrow> world \<Rightarrow> error + world" where
  "write_file path content w =
     (case fs w path of
        Some Dir \<Rightarrow> Inl IsADirectoryError
      | _ \<Rightarrow> Inr ((emit (Write path content) w)\<lparr>fs := (fs w)(path \<mapsto> File content)\<rparr>))"

definition get :: "env \<Rightarrow> request \<Rightarrow> string \<Rightarrow> world \<Rightarrow> string option \<times> world" where
  "get env kind url w = (http env (trace w) kind url, emit (Get kind url) w)"

subsection \<open>The fetcher: \<^verbatim>\<open>downloadScan\<close>\<close>

text \<open>
  \<open>attempt\<close> is one activation of the body of \<^verbatim>\<open>downloadScan\<close>, from its entry to
  the point where it returns, raises, or reaches \<^verbatim>\<open>await asyncio.sleep(10)\<close>
  (\<open>Suspended\<close>, with the \<open>Sleep 10\<close> recorded in the trace). The Python function
  returns \<^verbatim>\<open>None\<close> at each of its three return sites; the model tags the site:
  \<open>Skipped\<close> after \<^verbatim>\<open>'Already downloaded:'\<close>, \<open>Unresolvable\<close> after
  \<^verbatim>\<open>'Cannot resolve:'\<close>, \<open>Downloaded\<close> after the file is written.
\<close>

datatype status = Done outcome | Raised error | Suspended

definition attempt :: "env \<Rightarrow> string \<Rightarrow> string \<Rightarrow> bool \<Rightarrow> world \<Rightarrow> status \<times> world" where
  "attempt env filename destination skipIfExist w =
     (if skipIfExist \<and> exists w (join destination (filename @ ''.pdf''))
      then (Done Skipped, emit (Print (''Already downloaded: '' @ filename)) w)
      else
        let w1 = emit (Print (''Downloading '' @ filename)) w in
        case makedirs destination w1 of
          (Some e, w2) \<Rightarrow> (Raised e, w2)
        | (None, w2) \<Rightarrow>
        case get env Descriptor (DOWNLOADURL @ filename @ ''.xml'') w2 of
          (None, w3) \<Rightarrow> (Raised RequestException, w3)
        | (Some data, w3) \<Rightarrow>
        if contains data ''unavailable'' then
          (case get env Prepare (PREPAREURL @ filename @ ''.xml'') w3 of
             (None, w4) \<Rightarrow> (Raised RequestException, w4)
           | (Some _, w4) \<Rightarrow>
               (Suspended,
                emit (Sleep 10)
                  (emit (Print (filename @
                     '' Unavailable now, preparing and trying again in 10 seconds'')) w4)))
        else if contains data ''invalid item'' then
          (Done Unresolvable, emit (Print (''Cannot resolve: '' @ filename)) w3)
        else
          (case highres env data of
             None \<Rightarrow> (Raised ParseError, w3)
           | Some u \<Rightarrow>
          case get env Binary (BASEURL @ u) w3 of
             (None, w4) \<Rightarrow> (Raised RequestException, w4)
           | (Some content, w4) \<Rightarrow>
          case write_file (join destination (filename @ ''.pdf'')) content w4 of
             Inl e \<Rightarrow> (Raised e, w4)
           | Inr w5 \<Rightarrow> (Done Downloaded, w5)))"

text \<open>
  A call of \<^verbatim>\<open>downloadScan\<close> that is awaited alone: after the sleep the body calls
  \<^verbatim>\<open>downloadScan(filename, destination)\<close> again, so with the default
  \<^verbatim>\<open>skipIfExist=True\<close>, and returns when that call returns. The recursion has no
  bound, so the function is partial: \<open>None\<close> is a call that never returns.
\<close>

partial_function (option) downloadScan ::
  "env \<Rightarrow> string \<Rightarrow> string \<Rightarrow> bool \<Rightarrow> world \<Rightarrow> ((error + outcome) \<times> world) option" where
  "downloadScan env filename destination skipIfExist w =
     (case attempt env filename destination skipIfExist w of
        (Suspended, w') \<Rightarrow> downloadScan env filename destination True w'
      | (Done out, w') \<Rightarrow> Some (Inr out, w')
      | (Raised e, w') \<Rightarrow> Some (Inl e, w'))"

subsection \<open>The batch: \<^verbatim>\<open>asyncio.gather\<close> and \<^verbatim>\<open>fetchScans\<close>\<close>

text \<open>
  \<^verbatim>\<open>asyncio.gather\<close> starts one coroutine per target, in order, on a single thread. A
  coroutine runs without interruption until it returns, raises or sleeps, since
  \<^verbatim>\<open>requests.get\<close> blocks and the sleep is the only \<^verbatim>\<open>await\<close>. Every sleep
  lasts 10 seconds, so the coroutines wake in the order in which they went to sleep:
  the ready coroutines form a queue, and one that sleeps rejoins it at the back, to
  resume with \<^verbatim>\<open>downloadScan(filename, destination)\<close>. \<open>results\<close> holds the
  result of each finished coroutine at its position; \<^verbatim>\<open>gather\<close> returns them
  when the last one has finished. An exception raised in a coroutine is passed on to
  the caller; the world returned with it is the one at the moment it is raised
  (what the other coroutines still do until the event loop is closed is not
  modelled). \<^verbatim>\<open>fetchScans\<close> awaits \<^verbatim>\<open>gather\<close> and drops its list; the model
  keeps it.
\<close>

type_synonym coroutine = "nat \<times> string \<times> string \<times> bool"

partial_function (option) run_ready ::
  "env \<Rightarrow> coroutine list \<Rightarrow> outcome option list \<Rightarrow> world \<Rightarrow>
     ((error + outcome list) \<times> world) option" where
  "run_ready env ready results w =
     (case ready of
        [] \<Rightarrow> (case those results of Some outs \<Rightarrow> Some (Inr outs, w) | None \<Rightarrow> None)
      | (i, filename, destination, skipIfExist) # rest \<Rightarrow>
          (case attempt env filename destination skipIfExist w of
             (Suspended, w') \<Rightarrow>
               run_ready env (rest @ [(i, filename, destination, True)]) results w'
           | (Done out, w') \<Rightarrow> run_ready env rest (results[i := Some out]) w'
           | (Raised e, w') \<Rightarrow> Some (Inl e, w')))"

definition gather ::
  "env \<Rightarrow> (string \<times> string) list \<Rightarrow> world \<Rightarrow> ((error + outcome list) \<times> world) option" where
  "gather env targets w =
     run_ready env (map (\<lambda>(i, (f, d)). (i, f, d, True)) (enumerate 0 targets))
       (replicate (length targets) None) w"

definition fetchScans ::
  "env \<Rightarrow> string \<Rightarrow> string \<Rightarrow> string \<Rightarrow> world \<Rightarrow> ((error + outcome list) \<times> world) option" where
  "fetchScans env startscan endscan destination w =
     (case makeFilenames startscan endscan of
        Inl e \<Rightarrow> Some (Inl e, w)
      | Inr filenames \<Rightarrow> gather env (map (\<lambda>f. (f, destination)) filenames) w)"

subsection \<open>Example archives\<close>

text \<open>
  Concrete worlds and archives on which the properties below are evaluated: an archive
  that knows every item but \<open>b\<close>; one whose first descriptor response, before any
  sleep, holds both classification words; one that never prepares anything.
\<close>

definition empty_world :: world where
  "empty_world = \<lparr>fs = Map.empty, trace = []\<rparr>"

definition example_archive :: env where
  "example_archive =
     \<lparr>http = (\<lambda>h kind url.
         if kind = Descriptor \<and> url = DOWNLOADURL @ ''b.xml''
         then Some ''<error>invalid item</error>'' else Some ''<ok/>''),
      highres = (\<lambda>body. Some ''/file.pdf'')\<rparr>"

definition preparing_archive :: env where
  "preparing_archive =
     \<lparr>http = (\<lambda>h kind url.
         if kind = Descriptor \<and> Sleep 10 \<notin> set h
         then Some ''invalid item, unavailable'' else Some ''<ok/>''),
      highres = (\<lambda>body. Some ''/file.pdf'')\<rparr>"

definition unavailable_archive :: env where
  "unavailable_archive =
     \<lparr>http = (\<lambda>h kind url. Some ''unavailable''), highres = (\<lambda>body. None)\<rparr>"

section \<open>Properties of the sequencer\<close>

subsection \<open>Prefixes and splitting\<close>

lemma commonprefix_same: "commonprefix x x = x"
  by (induction x) auto

lemma commonprefix_sym: "commonprefix s e = commonprefix e s"
  by (induction s e rule: commonprefix.induct) auto

lemma commonprefix_start:
  "commonprefix s e @ drop (length (commonprefix s e)) s = s"
  by (induction s e rule: commonprefix.induct) auto

lemma commonprefix_end:
  "commonprefix s e @ drop (length (commonprefix s e)) e = e"
  using commonprefix_start [of e s] by (simp add: commonprefix_sym [of s e])

lemma startswith_append: "startswith (p @ r) p"
  by (induction p) auto

lemma split_from_absent:
  "sep \<noteq> [] \<Longrightarrow> \<not> contains s sep \<Longrightarrow> split_from sep cur s = [cur @ s]"
  by (induction s arbitrary: cur) auto

lemma split_from_prefix:
  assumes "sep \<noteq> []"
  shows "split_from sep cur (sep @ r) = cur # split_from sep [] r"
proof -
  obtain c cs where sep: "sep @ r = c # cs" using assms by (cases sep) auto
  have "split_from sep cur (c # cs) = cur # split_from sep [] (drop (length sep) (c # cs))"
    using assms startswith_append [of sep r] by (simp add: sep)
  then show ?thesis by (simp add: sep [symmetric])
qed

lemma split_prefixed:
  assumes "sep \<noteq> []" "\<not> contains r sep"
  shows "split (sep @ r) sep = Inr [[], r]"
  using assms by (simp add: split_def split_from_prefix split_from_absent)

lemma int_of_str_empty: "int_of_str [] = Inl ValueError"
  by (simp add: int_of_str_def int_strip_def)

text \<open>The nominal case: a common prefix that does not occur again in the remainders.\<close>

lemma makeFilenames_range:
  assumes "p = commonprefix start end'" "p \<noteq> []"
    and "\<not> contains (drop (length p) start) p" "\<not> contains (drop (length p) end') p"
    and "int_of_str (drop (length p) start) = Inr ns"
    and "int_of_str (drop (length p) end') = Inr ne"
  shows "makeFilenames start end' =
           Inr (map (\<lambda>i. p @ zfill (str_int i) (length (str_int ne))) [ns..ne])"
proof -
  have s: "split start p = Inr [[], drop (length p) start]"
    using split_prefixed [OF assms(2,3)] commonprefix_start [of start end'] assms(1) by simp
  have e: "split end' p = Inr [[], drop (length p) end']"
    using split_prefixed [OF assms(2,4)] commonprefix_end [of start end'] assms(1) by simp
  show ?thesis
    using s e assms(5,6) unfolding makeFilenames_def assms(1) [symmetric]
    by (simp add: item_def)
qed

lemma makeFilenames_same: "makeFilenames x x = Inl ValueError"
proof (cases "x = []")
  case True
  then show ?thesis by (simp add: makeFilenames_def split_def)
next
  case False
  have "split x x = Inr [[], []]"
    using split_prefixed [of x "[]"] False by simp
  then show ?thesis
    by (simp add: makeFilenames_def commonprefix_same item_def int_of_str_empty)
qed

subsection \<open>Digits\<close>

lemma digit_value_lt: "isdigit c \<Longrightarrow> digit_value c < 10"
  by (auto simp: isdigit_def digit_value_def)

lemma digit_char_value: "isdigit c \<Longrightarrow> digit_char (digit_value c) = c"
  by (auto simp: isdigit_def digit_value_def digit_char_def)

lemma digit_value_pos: "isdigit c \<Longrightarrow> c \<noteq> CHR ''0'' \<Longrightarrow> 0 < digit_value c"
  by (auto simp: isdigit_def digit_value_def)

lemma isdigit_not_space: "isdigit c \<Longrightarrow> \<not> int_space c"
  by (auto simp: isdigit_def int_space_def)

lemma isdigit_not_sign: "isdigit c \<Longrightarrow> c \<noteq> CHR ''-'' \<and> c \<noteq> CHR ''+'' \<and> c \<noteq> CHR ''_''"
  by (auto simp: isdigit_def)

lemma strip_digits:
  assumes "\<forall>c\<in>set s. isdigit c"
  shows "int_strip s = s"
proof -
  have a: "dropWhile int_space s = s"
    using assms by (cases s) (auto simp: isdigit_not_space)
  have b: "dropWhile int_space (rev s) = rev s"
    using assms by (cases "rev s") (auto simp: isdigit_not_space dest: arg_cong [where f = set])
  show ?thesis by (simp add: int_strip_def a b)
qed

lemma parse_digits_all:
  "\<forall>c\<in>set ds. isdigit c \<Longrightarrow>
     parse_digits acc ds = Some (foldl (\<lambda>a c. 10 * a + digit_value c) acc ds)"
  by (induction acc ds rule: parse_digits.induct) auto

lemma str_nat_step:
  "0 < acc \<Longrightarrow> d < 10 \<Longrightarrow> str_nat (10 * acc + d) = str_nat acc @ [digit_char d]"
  by (subst str_nat.simps) simp

lemma str_nat_foldl:
  "0 < acc \<Longrightarrow> \<forall>c\<in>set ds. isdigit c \<Longrightarrow>
     str_nat (foldl (\<lambda>a c. 10 * a + digit_value c) acc ds) = str_nat acc @ ds"
proof (induction ds arbitrary: acc)
  case Nil
  then show ?case by simp
next
  case (Cons c cs)
  have "str_nat (foldl (\<lambda>a c. 10 * a + digit_value c) (10 * acc + digit_value c) cs)
          = str_nat (10 * acc + digit_value c) @ cs"
    using Cons.IH [of "10 * acc + digit_value c"] Cons.prems by simp
  then show ?case
    using Cons.prems by (simp add: str_nat_step digit_value_lt digit_char_value)
qed

lemma str_nat_digit: "isdigit c \<Longrightarrow> str_nat (digit_value c) = [c]"
  by (subst str_nat.simps) (simp add: digit_value_lt digit_char_value)

text \<open>A plain decimal numeral (digits only, no leading zero) is what \<open>str_int\<close> prints
  for the integer that \<open>int_of_str\<close> reads from it.\<close>

lemma str_int_of_plain:
  assumes "re \<noteq> []" "\<forall>c\<in>set re. isdigit c" "hd re \<noteq> CHR ''0'' \<or> re = ''0''"
    and "int_of_str re = Inr ne"
  shows "str_int ne = re"
proof -
  obtain c cs where re: "re = c # cs" using assms(1) by (cases re) auto
  have c: "isdigit c" and cs: "\<forall>c\<in>set cs. isdigit c" using assms(2) re by auto
  have st: "int_strip (c # cs) = c # cs"
    using strip_digits [OF assms(2)] re by simp
  have "int_of_str re = Inr (int (foldl (\<lambda>a c. 10 * a + digit_value c) (digit_value c) cs))"
    using c cs isdigit_not_sign [OF c]
    by (simp add: int_of_str_def st re parse_nat_def parse_digits_all Let_def)
  then have ne: "ne = int (foldl (\<lambda>a c. 10 * a + digit_value c) (digit_value c) cs)"
    using assms(4) by simp
  show ?thesis
  proof (cases "c = CHR ''0''")
    case True
    then have "cs = []" using assms(3) re by simp
    then show ?thesis using c by (simp add: ne re str_int_def str_nat_digit)
  next
    case False
    then have "0 < digit_value c" using c by (rule digit_value_pos [rotated])
    then show ?thesis
      using c cs by (simp add: ne re str_int_def str_nat_foldl str_nat_digit)
  qed
qed

lemmas sequencer_eval =
  makeFilenames_def split_def item_def int_of_str_def int_strip_def int_space_def isdigit_def
  digit_value_def parse_nat_def str_int_def zfill_def digit_char_def str_nat.simps Let_def
  upto.simps

subsection \<open>Claims about the sequencer\<close>

text \<open>
  C4. The claim is that for a start and an end with a common prefix and numeric
  remainders the names from the start's number to the end's are returned. The code does
  so when the prefix does not occur again inside a remainder (\<open>makeFilenames_range\<close>
  above), as for the range from KLAC00161000001 to KLAC00161000003. Where it does occur
  again the code takes the wrong piece, since the remainder is read as the second piece
  of \<^verbatim>\<open>split(prefix)\<close>: 1213 and 1312 share the prefix 1 and have the remainders
  213 and 312, and the result is the two names 12 and 13, neither the first scan nor
  the last.
\<close>

theorem makeFilenames_recurring_prefix:
  "commonprefix ''1213'' ''1312'' = ''1''
   \<and> int_of_str ''213'' = Inr 213 \<and> int_of_str ''312'' = Inr 312
   \<and> makeFilenames ''1213'' ''1312'' = Inr [''12'', ''13'']
   \<and> makeFilenames ''KLAC00161000001'' ''KLAC00161000003'' =
       Inr [''KLAC00161000001'', ''KLAC00161000002'', ''KLAC00161000003'']"
  by (simp add: sequencer_eval)

text \<open>
  C6 (amended). The zero-pad width is the number of characters of the decimal form of
  the end's numeric value; it is the character length of the end's remainder when that
  remainder is a plain decimal numeral (digits only, no leading zero), whatever the
  start's remainder is. The witness is the range from A3 to A12, of width 2.
\<close>

theorem makeFilenames_width:
  assumes "p = commonprefix start end'" and "p \<noteq> []"
    and "\<not> contains (drop (length p) start) p" and "\<not> contains re p"
    and "int_of_str (drop (length p) start) = Inr ns"
    and "re = drop (length p) end'" and "int_of_str re = Inr ne"
    and "re \<noteq> []" and "\<forall>c\<in>set re. isdigit c" and "hd re \<noteq> CHR ''0'' \<or> re = ''0''"
  shows "makeFilenames start end' =
           Inr (map (\<lambda>i. p @ zfill (str_int i) (length re)) [ns..ne])"
proof -
  have "str_int ne = re"
    using assms(8,9,10,7) by (rule str_int_of_plain)
  then show ?thesis
    using makeFilenames_range [OF assms(1,2,3) _ assms(5), of ne] assms(4,6,7) by simp
qed

theorem makeFilenames_width_witness:
  "makeFilenames ''A3'' ''A12'' =
     Inr [''A03'', ''A04'', ''A05'', ''A06'', ''A07'', ''A08'', ''A09'', ''A10'', ''A11'', ''A12'']"
proof -
  have p: "''A'' = commonprefix ''A3'' ''A12''" by simp
  have s: "int_of_str (drop (length ''A'') ''A3'') = Inr 3"
    by (simp add: sequencer_eval)
  have e: "int_of_str ''12'' = Inr 12"
    by (simp add: sequencer_eval)
  have d: "\<forall>c\<in>set ''12''. isdigit c" by (simp add: isdigit_def)
  show ?thesis
    using makeFilenames_width [OF p _ _ _ s _ e _ d]
    by (simp add: upto.simps str_int_def zfill_def str_nat.simps digit_char_def)
qed

text \<open>
  C6 as stated fails twice. A1 and A12 have the common prefix A1, which leaves the
  start no remainder: the call raises \<^verbatim>\<open>ValueError\<close>. A1 and A05 have the end
  remainder 05, of length 2, and the names are padded to width 1.
\<close>

theorem makeFilenames_width_counterexample:
  "makeFilenames ''A1'' ''A12'' = Inl ValueError
   \<and> commonprefix ''A1'' ''A05'' = ''A''
   \<and> makeFilenames ''A1'' ''A05'' = Inr [''A1'', ''A2'', ''A3'', ''A4'', ''A5'']"
  by (simp add: sequencer_eval)

text \<open>
  C7. The claim is that \<^verbatim>\<open>makeFilenames(x, x)\<close> returns the one name \<open>x\<close>. The code
  raises \<^verbatim>\<open>ValueError\<close> for every \<open>x\<close>: the common prefix is \<open>x\<close> itself, the
  remainder is empty, and \<^verbatim>\<open>int('')\<close> raises (for the empty \<open>x\<close> the empty
  separator does). This is so for the call that the docstring of \<^verbatim>\<open>fetchScans\<close>
  shows.
\<close>

theorem makeFilenames_degenerate_raises:
  "makeFilenames x x = Inl ValueError
   \<and> makeFilenames ''KLAC00161000001'' ''KLAC00161000001'' = Inl ValueError"
  by (simp add: makeFilenames_same)

section \<open>Properties of the fetcher\<close>

subsection \<open>One activation\<close>

lemmas fetcher_defs =
  attempt_def makedirs_def get_def write_file_def emit_def exists_def Let_def

lemma attempt_skipped:
  "exists w (join d (f @ ''.pdf'')) \<Longrightarrow>
     attempt env f d True w = (Done Skipped, emit (Print (''Already downloaded: '' @ f)) w)"
  by (simp add: attempt_def)

lemma attempt_downloaded_exists:
  "attempt env f d s w = (Done Downloaded, w') \<Longrightarrow> exists w' (join d (f @ ''.pdf''))"
  by (auto simp: fetcher_defs split: if_splits prod.splits option.splits node.splits sum.splits)

lemma downloadScan_downloaded_exists:
  assumes "downloadScan env f d s w = Some y"
  shows "fst y = Inr Downloaded \<longrightarrow> exists (snd y) (join d (f @ ''.pdf''))"
proof (rule downloadScan.raw_induct
    [where P = "\<lambda>env f d s w y. fst y = Inr Downloaded \<longrightarrow> exists (snd y) (join d (f @ ''.pdf''))",
     OF _ assms])
  fix F env f d s w y
  assume IH: "\<And>env f d s w y. F env f d s w = Some y \<Longrightarrow>
      fst y = Inr Downloaded \<longrightarrow> exists (snd y) (join d (f @ ''.pdf''))"
    and step: "(case attempt env f d s w of
        (Suspended, w') \<Rightarrow> F env f d True w'
      | (Done out, w') \<Rightarrow> Some (Inr out, w')
      | (Raised e, w') \<Rightarrow> Some (Inl e, w')) = Some y"
  show "fst y = Inr Downloaded \<longrightarrow> exists (snd y) (join d (f @ ''.pdf''))"
    using step IH
    by (auto split: prod.splits status.splits dest: attempt_downloaded_exists)
qed

lemma makedirs_ok:
  assumes "d \<noteq> []" and "\<forall>c. fs w d \<noteq> Some (File c)"
  shows "makedirs d (emit ev w) =
     (None, w\<lparr>fs := (fs w)(d \<mapsto> Dir), trace := trace w @ [ev, MakeDirs d]\<rparr>)"
  using assms
  by (cases "fs w d") (auto simp: makedirs_def emit_def Let_def fun_upd_idem split: node.splits)

lemma attempt_unavailable:
  assumes "\<not> (s \<and> exists w (join d (f @ ''.pdf'')))"
    and "d \<noteq> []" and "\<forall>c. fs w d \<noteq> Some (File c)"
    and "http env (trace w @ [Print (''Downloading '' @ f), MakeDirs d]) Descriptor
           (DOWNLOADURL @ f @ ''.xml'') = Some data"
    and "contains data ''unavailable''"
    and "http env (trace w @ [Print (''Downloading '' @ f), MakeDirs d,
             Get Descriptor (DOWNLOADURL @ f @ ''.xml'')]) Prepare
           (PREPAREURL @ f @ ''.xml'') = Some x"
  shows "attempt env f d s w =
    (Suspended,
     w\<lparr>fs := (fs w)(d \<mapsto> Dir),
       trace := trace w @
         [Print (''Downloading '' @ f), MakeDirs d,
          Get Descriptor (DOWNLOADURL @ f @ ''.xml''),
          Get Prepare (PREPAREURL @ f @ ''.xml''),
          Print (f @ '' Unavailable now, preparing and trying again in 10 seconds''),
          Sleep 10]\<rparr>)"
proof -
  have c: "(s \<and> exists w (join d (f @ ''.pdf''))) = False"
    using assms(1) by simp
  show ?thesis
    unfolding attempt_def c using assms(4,5,6)
    by (simp add: makedirs_ok [OF assms(2,3)] Let_def get_def) (simp add: emit_def)
qed

lemma attempt_invalid:
  assumes "\<not> (s \<and> exists w (join d (f @ ''.pdf'')))"
    and "d \<noteq> []" and "\<forall>c. fs w d \<noteq> Some (File c)"
    and "http env (trace w @ [Print (''Downloading '' @ f), MakeDirs d]) Descriptor
           (DOWNLOADURL @ f @ ''.xml'') = Some data"
    and "\<not> contains data ''unavailable''" and "contains data ''invalid item''"
  shows "attempt env f d s w =
    (Done Unresolvable,
     w\<lparr>fs := (fs w)(d \<mapsto> Dir),
       trace := trace w @
         [Print (''Downloading '' @ f), MakeDirs d,
          Get Descriptor (DOWNLOADURL @ f @ ''.xml''),
          Print (''Cannot resolve: '' @ f)]\<rparr>)"
proof -
  have c: "(s \<and> exists w (join d (f @ ''.pdf''))) = False"
    using assms(1) by simp
  show ?thesis
    unfolding attempt_def c using assms(4,5,6)
    by (simp add: makedirs_ok [OF assms(2,3)] Let_def get_def) (simp add: emit_def)
qed

lemma downloadScan_suspended:
  "attempt env f d s w = (Suspended, w1) \<Longrightarrow>
     downloadScan env f d s w = downloadScan env f d True w1"
  by (subst downloadScan.simps) simp

lemma downloadScan_done:
  "attempt env f d s w = (Done out, w1) \<Longrightarrow> downloadScan env f d s w = Some (Inr out, w1)"
  by (subst downloadScan.simps) simp




lemmas fetcher_eval = attempt_def makedirs_def get_def write_file_def emit_def exists_def
  join_def BASEURL_def DOWNLOADURL_def PREPAREURL_def Let_def empty_world_def


lemma attempt_directory:
  assumes "attempt env f d s w = (r, w')"
    and "r \<noteq> Done Skipped" and "r \<noteq> Raised FileNotFoundError" and "r \<noteq> Raised FileExistsError"
  shows "fs w' d = Some Dir \<and>
         (\<exists>rest. trace w' = trace w @ [Print (''Downloading '' @ f), MakeDirs d,
                     Get Descriptor (DOWNLOADURL @ f @ ''.xml'')] @ rest)"
proof -
  have ns: "\<not> (s \<and> exists w (join d (f @ ''.pdf'')))"
    using assms(1,2) by (auto simp: attempt_def)
  have ok: "d \<noteq> [] \<and> (\<forall>c. fs w d \<noteq> Some (File c))"
    using assms(1,3,4) ns
    by (auto simp: attempt_def makedirs_def emit_def Let_def split: if_splits)
  then have m: "makedirs d (emit ev w) =
     (None, w\<lparr>fs := (fs w)(d \<mapsto> Dir), trace := trace w @ [ev, MakeDirs d]\<rparr>)" for ev
    by (simp add: makedirs_ok)
  have c: "(s \<and> exists w (join d (f @ ''.pdf''))) = False"
    using ns by simp
  show ?thesis
    using assms(1) unfolding attempt_def c Let_def m
    by (auto simp: get_def write_file_def emit_def
        split: if_splits option.splits node.splits)
qed

lemma downloadScan_directory:
  assumes "downloadScan env f d s w = Some y"
  shows "\<forall>out. fst y = Inr out \<and> out \<noteq> Skipped \<longrightarrow> fs (snd y) d = Some Dir"
proof (rule downloadScan.raw_induct
    [where P = "\<lambda>env f d s w y. \<forall>out. fst y = Inr out \<and> out \<noteq> Skipped \<longrightarrow> fs (snd y) d = Some Dir",
     OF _ assms])
  fix F env f d s w y
  assume IH: "\<And>env f d s w y. F env f d s w = Some y \<Longrightarrow>
      \<forall>out. fst y = Inr out \<and> out \<noteq> Skipped \<longrightarrow> fs (snd y) d = Some Dir"
    and step: "(case attempt env f d s w of
        (Suspended, w') \<Rightarrow> F env f d True w'
      | (Done out, w') \<Rightarrow> Some (Inr out, w')
      | (Raised e, w') \<Rightarrow> Some (Inl e, w')) = Some y"
  obtain r w1 where a: "attempt env f d s w = (r, w1)" by (cases "attempt env f d s w")
  show "\<forall>out. fst y = Inr out \<and> out \<noteq> Skipped \<longrightarrow> fs (snd y) d = Some Dir"
  proof (cases r)
    case Suspended
    then have "F env f d True w1 = Some y" using step a by simp
    then show ?thesis by (rule IH)
  next
    case (Done out)
    then show ?thesis using step a attempt_directory [OF a] by auto
  next
    case (Raised e)
    then show ?thesis using step a by auto
  qed
qed


subsection \<open>Claims about the fetcher\<close>

text \<open>
  C1. If a call with \<^verbatim>\<open>skipIfExist=True\<close> has completed with \<open>Downloaded\<close>, a
  call that follows it for the same identifier and destination, again with
  \<^verbatim>\<open>skipIfExist=True\<close>, returns \<open>Skipped\<close> at once: all it adds to the trace is
  the message, so it issues no descriptor request, no preparation request and no
  binary fetch.
\<close>

theorem skip_after_download:
  assumes "downloadScan env f d True w = Some (Inr Downloaded, w')"
  shows "downloadScan env f d True w' =
           Some (Inr Skipped, emit (Print (''Already downloaded: '' @ f)) w')"
proof -
  have "exists w' (join d (f @ ''.pdf''))"
    using downloadScan_downloaded_exists [OF assms] by simp
  then show ?thesis
    by (simp add: attempt_skipped downloadScan_done)
qed

theorem skip_after_download_witness:
  "downloadScan example_archive ''a'' ''d/'' True empty_world =
     Some (Inr Downloaded,
       \<lparr>fs = [''d/'' \<mapsto> Dir, ''d/a.pdf'' \<mapsto> File ''<ok/>''],
        trace = [Print ''Downloading a'', MakeDirs ''d/'',
          Get Descriptor ''https://archief.amsterdam/api/download_info/0/a.xml'',
          Get Binary ''https://archief.amsterdam/file.pdf'',
          Write ''d/a.pdf'' ''<ok/>'']\<rparr>)
   \<and> downloadScan example_archive ''a'' ''d/'' True
       \<lparr>fs = [''d/'' \<mapsto> Dir, ''d/a.pdf'' \<mapsto> File ''<ok/>''],
        trace = [Print ''Downloading a'', MakeDirs ''d/'',
          Get Descriptor ''https://archief.amsterdam/api/download_info/0/a.xml'',
          Get Binary ''https://archief.amsterdam/file.pdf'',
          Write ''d/a.pdf'' ''<ok/>'']\<rparr> =
     Some (Inr Skipped,
       \<lparr>fs = [''d/'' \<mapsto> Dir, ''d/a.pdf'' \<mapsto> File ''<ok/>''],
        trace = [Print ''Downloading a'', MakeDirs ''d/'',
          Get Descriptor ''https://archief.amsterdam/api/download_info/0/a.xml'',
          Get Binary ''https://archief.amsterdam/file.pdf'',
          Write ''d/a.pdf'' ''<ok/>'', Print ''Already downloaded: a'']\<rparr>)"
proof -
  have first: "downloadScan example_archive ''a'' ''d/'' True empty_world =
     Some (Inr Downloaded,
       \<lparr>fs = [''d/'' \<mapsto> Dir, ''d/a.pdf'' \<mapsto> File ''<ok/>''],
        trace = [Print ''Downloading a'', MakeDirs ''d/'',
          Get Descriptor ''https://archief.amsterdam/api/download_info/0/a.xml'',
          Get Binary ''https://archief.amsterdam/file.pdf'',
          Write ''d/a.pdf'' ''<ok/>'']\<rparr>)"
    by (simp add: downloadScan.simps example_archive_def fetcher_eval)
  show ?thesis
    using first skip_after_download [OF first] by (simp add: emit_def)
qed

text \<open>
  C5 (amended). A fetch that reaches its descriptor request and whose descriptor body
  contains \<^verbatim>\<open>invalid item\<close> and does not contain \<^verbatim>\<open>unavailable\<close> ends at
  once with \<open>Unresolvable\<close>: after the descriptor request it only prints, so there
  is no binary fetch, and the file system gains nothing but the destination directory.
\<close>

theorem invalid_item_unresolvable:
  assumes "\<not> (s \<and> exists w (join d (f @ ''.pdf'')))"
    and "d \<noteq> []" and "\<forall>c. fs w d \<noteq> Some (File c)"
    and "http env (trace w @ [Print (''Downloading '' @ f), MakeDirs d]) Descriptor
           (DOWNLOADURL @ f @ ''.xml'') = Some data"
    and "contains data ''invalid item''" and "\<not> contains data ''unavailable''"
  shows "downloadScan env f d s w =
    Some (Inr Unresolvable,
     w\<lparr>fs := (fs w)(d \<mapsto> Dir),
       trace := trace w @
         [Print (''Downloading '' @ f), MakeDirs d,
          Get Descriptor (DOWNLOADURL @ f @ ''.xml''),
          Print (''Cannot resolve: '' @ f)]\<rparr>)"
  using attempt_invalid [OF assms(1,2,3,4,6,5)] by (rule downloadScan_done)

theorem invalid_item_unresolvable_witness:
  "downloadScan example_archive ''b'' ''d/'' True empty_world =
     Some (Inr Unresolvable,
       \<lparr>fs = [''d/'' \<mapsto> Dir],
        trace = [Print ''Downloading b'', MakeDirs ''d/'',
          Get Descriptor ''https://archief.amsterdam/api/download_info/0/b.xml'',
          Print ''Cannot resolve: b'']\<rparr>)"
proof -
  have 1: "\<not> (True \<and> exists empty_world (join ''d/'' (''b'' @ ''.pdf'')))"
    by (simp add: exists_def empty_world_def)
  have 2: "''d/'' \<noteq> []" by simp
  have 3: "\<forall>c. fs empty_world ''d/'' \<noteq> Some (File c)" by (simp add: empty_world_def)
  have 4: "http example_archive (trace empty_world @ [Print (''Downloading '' @ ''b''), MakeDirs ''d/''])
      Descriptor (DOWNLOADURL @ ''b'' @ ''.xml'') = Some ''<error>invalid item</error>''"
    by (simp add: example_archive_def)
  have 5: "contains ''<error>invalid item</error>'' ''invalid item''" by simp
  have 6: "\<not> contains ''<error>invalid item</error>'' ''unavailable''" by simp
  show ?thesis
    using invalid_item_unresolvable [OF 1 2 3 4 5 6]
    by (simp add: empty_world_def DOWNLOADURL_def)
qed

text \<open>
  C5 as stated, for any body containing \<^verbatim>\<open>invalid item\<close>, fails: the test for
  \<^verbatim>\<open>unavailable\<close> comes first. A body with both words starts a preparing cycle,
  and the retry, on a ready descriptor, fetches the binary and ends with
  \<open>Downloaded\<close>.
\<close>

theorem invalid_item_counterexample:
  "contains ''invalid item, unavailable'' ''invalid item''
   \<and> http preparing_archive [Print ''Downloading a'', MakeDirs ''d/''] Descriptor
        (DOWNLOADURL @ ''a.xml'') = Some ''invalid item, unavailable''
   \<and> downloadScan preparing_archive ''a'' ''d/'' True empty_world =
   Some (Inr Downloaded,
     \<lparr>fs = [''d/'' \<mapsto> Dir, ''d/a.pdf'' \<mapsto> File ''<ok/>''],
      trace = [Print ''Downloading a'', MakeDirs ''d/'',
        Get Descriptor ''https://archief.amsterdam/api/download_info/0/a.xml'',
        Get Prepare ''https://archief.amsterdam/api/queue_download/0/a.xml'',
        Print ''a Unavailable now, preparing and trying again in 10 seconds'',
        Sleep 10,
        Print ''Downloading a'', MakeDirs ''d/'',
        Get Descriptor ''https://archief.amsterdam/api/download_info/0/a.xml'',
        Get Binary ''https://archief.amsterdam/file.pdf'',
        Write ''d/a.pdf'' ''<ok/>'']\<rparr>)"
  by (simp add: downloadScan.simps preparing_archive_def fetcher_eval)

text \<open>
  C10. The retry after the sleep is \<^verbatim>\<open>downloadScan(filename, destination)\<close>, with
  \<^verbatim>\<open>skipIfExist\<close> back at its default. A call made with \<^verbatim>\<open>skipIfExist=False\<close>
  while the artifact file exists, whose descriptor body contains \<^verbatim>\<open>unavailable\<close>,
  returns \<open>Skipped\<close> on its retry: the trace ends with the sleep and the message,
  without a second descriptor request, a binary fetch or a write.
\<close>

theorem retry_resets_skip:
  assumes "exists w (join d (f @ ''.pdf''))"
    and "d \<noteq> []" and "\<forall>c. fs w d \<noteq> Some (File c)"
    and "http env (trace w @ [Print (''Downloading '' @ f), MakeDirs d]) Descriptor
           (DOWNLOADURL @ f @ ''.xml'') = Some data"
    and "contains data ''unavailable''"
    and "http env (trace w @ [Print (''Downloading '' @ f), MakeDirs d,
             Get Descriptor (DOWNLOADURL @ f @ ''.xml'')]) Prepare
           (PREPAREURL @ f @ ''.xml'') = Some x"
  shows "downloadScan env f d False w =
    Some (Inr Skipped,
     w\<lparr>fs := (fs w)(d \<mapsto> Dir),
       trace := trace w @
         [Print (''Downloading '' @ f), MakeDirs d,
          Get Descriptor (DOWNLOADURL @ f @ ''.xml''),
          Get Prepare (PREPAREURL @ f @ ''.xml''),
          Print (f @ '' Unavailable now, preparing and trying again in 10 seconds''),
          Sleep 10,
          Print (''Already downloaded: '' @ f)]\<rparr>)"
proof -
  let ?w1 = "w\<lparr>fs := (fs w)(d \<mapsto> Dir),
       trace := trace w @
         [Print (''Downloading '' @ f), MakeDirs d,
          Get Descriptor (DOWNLOADURL @ f @ ''.xml''),
          Get Prepare (PREPAREURL @ f @ ''.xml''),
          Print (f @ '' Unavailable now, preparing and trying again in 10 seconds''),
          Sleep 10]\<rparr>"
  have a: "attempt env f d False w = (Suspended, ?w1)"
    using attempt_unavailable [OF _ assms(2,3,4,5,6), of False] by simp
  have "exists ?w1 (join d (f @ ''.pdf''))"
    using assms(1) by (simp add: exists_def)
  then have "attempt env f d True ?w1 =
      (Done Skipped, emit (Print (''Already downloaded: '' @ f)) ?w1)"
    by (rule attempt_skipped)
  then have "downloadScan env f d True ?w1 =
      Some (Inr Skipped, emit (Print (''Already downloaded: '' @ f)) ?w1)"
    by (rule downloadScan_done)
  then show ?thesis
    using downloadScan_suspended [OF a] by (simp add: emit_def)
qed

theorem retry_resets_skip_witness:
  "downloadScan preparing_archive ''a'' ''d/'' False
     \<lparr>fs = [''d/a.pdf'' \<mapsto> File ''old''], trace = []\<rparr> =
   Some (Inr Skipped,
     \<lparr>fs = [''d/a.pdf'' \<mapsto> File ''old'', ''d/'' \<mapsto> Dir],
      trace = [Print ''Downloading a'', MakeDirs ''d/'',
        Get Descriptor ''https://archief.amsterdam/api/download_info/0/a.xml'',
        Get Prepare ''https://archief.amsterdam/api/queue_download/0/a.xml'',
        Print ''a Unavailable now, preparing and trying again in 10 seconds'',
        Sleep 10,
        Print ''Already downloaded: a'']\<rparr>)"
proof -
  let ?w = "\<lparr>fs = [''d/a.pdf'' \<mapsto> File ''old''], trace = []\<rparr>"
  have 1: "exists ?w (join ''d/'' (''a'' @ ''.pdf''))"
    by (simp add: exists_def join_def)
  have 2: "''d/'' \<noteq> []" by simp
  have 3: "\<forall>c. fs ?w ''d/'' \<noteq> Some (File c)" by simp
  have 4: "http preparing_archive (trace ?w @ [Print (''Downloading '' @ ''a''), MakeDirs ''d/''])
      Descriptor (DOWNLOADURL @ ''a'' @ ''.xml'') = Some ''invalid item, unavailable''"
    by (simp add: preparing_archive_def)
  have 5: "contains ''invalid item, unavailable'' ''unavailable''" by simp
  have 6: "http preparing_archive (trace ?w @ [Print (''Downloading '' @ ''a''), MakeDirs ''d/'',
             Get Descriptor (DOWNLOADURL @ ''a'' @ ''.xml'')]) Prepare
           (PREPAREURL @ ''a'' @ ''.xml'') = Some ''<ok/>''"
    by (simp add: preparing_archive_def)
  show ?thesis
    using retry_resets_skip [OF 1 2 3 4 5 6]
    by (simp add: DOWNLOADURL_def PREPAREURL_def)
qed

text \<open>
  C9. An activation of the fetcher that is not skipped, and in which
  \<^verbatim>\<open>os.makedirs\<close> itself does not raise, has called \<^verbatim>\<open>os.makedirs\<close> before
  the descriptor request, and the destination is a directory afterwards, whether the
  activation ends with \<open>Unresolvable\<close>, with \<open>Downloaded\<close>, with a later exception,
  or suspended in a preparing cycle. A call that returns an outcome other than
  \<open>Skipped\<close> leaves the destination directory in place.
\<close>

theorem destination_created:
  "(attempt env f d s w = (r, w') \<and> r \<noteq> Done Skipped
      \<and> r \<noteq> Raised FileNotFoundError \<and> r \<noteq> Raised FileExistsError
    \<longrightarrow> fs w' d = Some Dir
        \<and> (\<exists>rest. trace w' = trace w @ [Print (''Downloading '' @ f), MakeDirs d,
                     Get Descriptor (DOWNLOADURL @ f @ ''.xml'')] @ rest))
   \<and> (downloadScan env f d s w = Some (Inr out, w'') \<and> out \<noteq> Skipped
    \<longrightarrow> fs w'' d = Some Dir)"
  using attempt_directory [of env f d s w r w'] downloadScan_directory [of env f d s w "(Inr out, w'')"]
  by auto

theorem destination_created_witness:
  "attempt unavailable_archive ''a'' ''d/'' True empty_world =
     (Suspended,
       \<lparr>fs = [''d/'' \<mapsto> Dir],
        trace = [Print ''Downloading a'', MakeDirs ''d/'',
          Get Descriptor ''https://archief.amsterdam/api/download_info/0/a.xml'',
          Get Prepare ''https://archief.amsterdam/api/queue_download/0/a.xml'',
          Print ''a Unavailable now, preparing and trying again in 10 seconds'',
          Sleep 10]\<rparr>)
   \<and> downloadScan example_archive ''b'' ''d/'' True empty_world =
     Some (Inr Unresolvable,
       \<lparr>fs = [''d/'' \<mapsto> Dir],
        trace = [Print ''Downloading b'', MakeDirs ''d/'',
          Get Descriptor ''https://archief.amsterdam/api/download_info/0/b.xml'',
          Print ''Cannot resolve: b'']\<rparr>)
   \<and> fs \<lparr>fs = [''d/'' \<mapsto> Dir],
        trace = [Print ''Downloading b'', MakeDirs ''d/'',
          Get Descriptor ''https://archief.amsterdam/api/download_info/0/b.xml'',
          Print ''Cannot resolve: b'']\<rparr> ''d/'' = Some Dir"
proof -
  let ?w1 = "\<lparr>fs = [''d/'' \<mapsto> Dir],
        trace = [Print ''Downloading a'', MakeDirs ''d/'',
          Get Descriptor ''https://archief.amsterdam/api/download_info/0/a.xml'',
          Get Prepare ''https://archief.amsterdam/api/queue_download/0/a.xml'',
          Print ''a Unavailable now, preparing and trying again in 10 seconds'',
          Sleep 10]\<rparr>"
  let ?w2 = "\<lparr>fs = [''d/'' \<mapsto> Dir],
        trace = [Print ''Downloading b'', MakeDirs ''d/'',
          Get Descriptor ''https://archief.amsterdam/api/download_info/0/b.xml'',
          Print ''Cannot resolve: b'']\<rparr>"
  have a: "attempt unavailable_archive ''a'' ''d/'' True empty_world = (Suspended, ?w1)"
    by (simp add: unavailable_archive_def fetcher_eval)
  have b: "downloadScan example_archive ''b'' ''d/'' True empty_world = Some (Inr Unresolvable, ?w2)"
    by (simp add: downloadScan.simps example_archive_def fetcher_eval)
  have c: "attempt example_archive ''b'' ''d/'' True empty_world = (Done Unresolvable, ?w2)"
    by (simp add: example_archive_def fetcher_eval)
  have "fs ?w1 ''d/'' = Some Dir"
    using destination_created [of unavailable_archive "''a''" "''d/''" True empty_world
        Suspended ?w1] a
    by blast
  moreover have "fs ?w2 ''d/'' = Some Dir"
    using destination_created [of example_archive "''b''" "''d/''" True empty_world
        "Done Unresolvable" ?w2 Unresolvable ?w2] b c
    by blast
  ultimately show ?thesis using a b by blast
qed




section \<open>Properties of the batch\<close>



lemma run_ready_suspended:
  "attempt env f d s w = (Suspended, w1) \<Longrightarrow>
     run_ready env ((i, f, d, s) # rest) results w =
     run_ready env (rest @ [(i, f, d, True)]) results w1"
  by (subst run_ready.simps) simp

lemma run_ready_empty:
  "those results = Some outs \<Longrightarrow> run_ready env [] results w = Some (Inr outs, w)"
  by (subst run_ready.simps) simp




lemma gather_empty: "gather env [] w = Some (Inr [], w)"
  by (simp add: gather_def run_ready_empty)

subsection \<open>Claims about the batch\<close>



text \<open>
  C8 (amended). For a start and an end with a common prefix that does not occur again
  in the remainders, and with the end's numeric value below the start's,
  \<^verbatim>\<open>makeFilenames\<close> returns the empty list, and \<^verbatim>\<open>fetchScans\<close> completes
  with no outcome and an unchanged world: no request is issued and nothing is written.
\<close>

theorem reversed_range_empty:
  assumes "p = commonprefix start end'" and "p \<noteq> []"
    and "\<not> contains (drop (length p) start) p" and "\<not> contains (drop (length p) end') p"
    and "int_of_str (drop (length p) start) = Inr ns"
    and "int_of_str (drop (length p) end') = Inr ne"
    and "ne < ns"
  shows "makeFilenames start end' = Inr []
     \<and> fetchScans env start end' destination w = Some (Inr [], w)"
proof -
  have "makeFilenames start end' = Inr []"
    using makeFilenames_range [OF assms(1-6)] assms(7) by simp
  then show ?thesis by (simp add: fetchScans_def gather_empty)
qed

theorem reversed_range_empty_witness:
  "makeFilenames ''A2'' ''A1'' = Inr []
   \<and> fetchScans example_archive ''A2'' ''A1'' ''d/'' empty_world = Some (Inr [], empty_world)"
proof -
  have p: "''A'' = commonprefix ''A2'' ''A1''" by simp
  have s: "int_of_str (drop (length ''A'') ''A2'') = Inr 2"
    by (simp add: sequencer_eval)
  have e: "int_of_str (drop (length ''A'') ''A1'') = Inr 1"
    by (simp add: sequencer_eval)
  show ?thesis
    using reversed_range_empty [OF p _ _ _ s e, of example_archive "''d/''" empty_world] by simp
qed

text \<open>
  C8 as stated fails: nothing in the code compares the two numbers, and the empty
  \<^verbatim>\<open>range\<close> gives the empty list, not an error.
\<close>

theorem reversed_range_counterexample:
  "commonprefix ''A2'' ''A1'' = ''A''
   \<and> int_of_str ''2'' = Inr 2 \<and> int_of_str ''1'' = Inr 1
   \<and> makeFilenames ''A2'' ''A1'' = Inr []"
  by (simp add: sequencer_eval)

end
